theory Spec2Isabelle
  imports Complex_Main
begin

section \<open>JavaScript values used by the program\<close>

text \<open>
  A JavaScript \<open>number\<close> is a finite value, \<open>NaN\<close> or one of the two infinities.
  Finite values are modelled by the reals. Comparing, clamping, flooring and negating
  are exact on doubles; the few sums and products of the program (\<open>page * take\<close>,
  \<open>now - t\<close>) are taken exactly here, without the rounding of doubles.
\<close>

datatype number = Finite real | NaN | PosInfinity | NegInfinity

text \<open>\<open>Number.isNaN\<close>.\<close>

fun isNaN :: "number \<Rightarrow> bool" where
  "isNaN NaN = True"
| "isNaN _ = False"

text \<open>The relational operator \<open><\<close> on numbers: every comparison with \<open>NaN\<close> is false.\<close>

fun num_lt :: "number \<Rightarrow> number \<Rightarrow> bool" where
  "num_lt (Finite a) (Finite b) = (a < b)"
| "num_lt NaN _ = False"
| "num_lt _ NaN = False"
| "num_lt PosInfinity _ = False"
| "num_lt _ PosInfinity = True"
| "num_lt _ NegInfinity = False"
| "num_lt NegInfinity _ = True"

text \<open>
  \<open>Set.prototype.has\<close> on a set of finite numbers (SameValueZero): \<open>NaN\<close> and the
  infinities are members of no such set.
\<close>

fun has :: "real set \<Rightarrow> number \<Rightarrow> bool" where
  "has S (Finite r) = (r \<in> S)"
| "has S _ = False"

section \<open>Weather taxonomy (lib/weather.ts)\<close>

text \<open>
  The object \<open>WeatherGroups\<close>, with its keys in insertion order, and
  \<open>WEATHER_GROUP_KEYS = Object.keys(WeatherGroups)\<close>.
\<close>

definition WeatherGroups :: "(string \<times> real set) list" where
  "WeatherGroups =
    [(''clear'', {0}),
     (''cloudy'', {1, 2, 3}),
     (''drizzle'', {51, 52, 53, 54, 55, 56, 57}),
     (''rainy'', {61, 62, 63, 64, 65, 66, 67, 80, 81, 82}),
     (''snow'', {71, 72, 73, 74, 75, 76, 77, 85, 86})]"

definition WEATHER_GROUP_KEYS :: "string list" where
  "WEATHER_GROUP_KEYS = map fst WeatherGroups"

text \<open>
  \<open>WeatherGroups[g].has(code)\<close>. For a key that the object does not have the
  JavaScript raises a TypeError; both callers pass keys of \<open>WEATHER_GROUP_KEYS\<close> only
  (lemma \<open>group_has_known\<close> below), so that branch is never taken and is given
  the value \<open>False\<close>.
\<close>

definition group_has :: "string \<Rightarrow> number \<Rightarrow> bool" where
  "group_has g code =
    (case map_of WeatherGroups g of
       None \<Rightarrow> False
     | Some S \<Rightarrow> has S code)"

text \<open>
  \<open>matchesWeatherGroup(code, groups)\<close>. The code is \<open>number | null | undefined\<close>
  (\<open>None\<close> for the latter two, and for any other non-number); the optional
  argument \<open>groups\<close> is \<open>None\<close> when absent.
\<close>

definition matchesWeatherGroup :: "number option \<Rightarrow> string list option \<Rightarrow> bool" where
  "matchesWeatherGroup code groups =
    (case groups of
       None \<Rightarrow> True
     | Some gs \<Rightarrow>
         if length gs = 0 then True
         else
           let validGroups = filter (\<lambda>g. g \<in> set WEATHER_GROUP_KEYS) gs in
           if length validGroups = 0 then True
           else
             (case code of
                None \<Rightarrow> False
              | Some c \<Rightarrow> list_ex (\<lambda>g. group_has g c) validGroups))"

text \<open>\<open>getWeatherGroupLabel(code)\<close>: the first key, in key order, whose set has the code.\<close>

definition getWeatherGroupLabel :: "number option \<Rightarrow> string option" where
  "getWeatherGroupLabel code =
    (case code of
       None \<Rightarrow> None
     | Some c \<Rightarrow> find (\<lambda>group. group_has group c) WEATHER_GROUP_KEYS)"

section \<open>Query parsing (lib/utils.ts)\<close>

text \<open>
  A query value as \<open>parseNumber(q: any)\<close> can see it: absent (\<open>undefined\<close> or
  \<open>null\<close>), a string, a number, or anything else (an array or a nested object).
\<close>

datatype qvalue = QUndefined | QString string | QNumber number | QOther

text \<open>
  The argument of \<open>parseWeatherGroups(raw?: string | string[] | null)\<close>, by its
  declared type. Values of other shapes are outside that type and outside this model.
\<close>

datatype raw_groups = RawAbsent | RawString string | RawArray "string list"

text \<open>
  \<open>String.prototype.trim\<close> on the ASCII white space and line terminators (tab, line
  feed, vertical tab, form feed, carriage return, space).
\<close>

definition isWhiteSpace :: "char \<Rightarrow> bool" where
  "isWhiteSpace c = (of_char c \<in> {9, 10, 11, 12, 13, 32 :: nat})"

definition trim :: "string \<Rightarrow> string" where
  "trim s = rev (dropWhile isWhiteSpace (rev (dropWhile isWhiteSpace s)))"

text \<open>\<open>s.split(sep)\<close> for a one-character separator: the empty string gives one empty piece.\<close>

fun split_on :: "char \<Rightarrow> string \<Rightarrow> string list" where
  "split_on sep [] = [[]]"
| "split_on sep (c # cs) =
    (if c = sep then [] # split_on sep cs
     else (case split_on sep cs of
             [] \<Rightarrow> [[c]]
           | w # ws \<Rightarrow> (c # w) # ws))"

text \<open>
  \<open>parseNumber(q)\<close>. The conversion \<open>Number(q)\<close> of a string is the platform's; it
  is the parameter \<open>toNumber\<close>. \<open>Number.isFinite(n)\<close> holds of the finite numbers
  only.
\<close>

definition parseNumber :: "(string \<Rightarrow> number) \<Rightarrow> qvalue \<Rightarrow> real option" where
  "parseNumber toNumber q =
    (case q of
       QString s \<Rightarrow>
         if trim s \<noteq> [] then
           (case toNumber s of Finite n \<Rightarrow> Some n | _ \<Rightarrow> None)
         else None
     | QNumber (Finite n) \<Rightarrow> Some n
     | _ \<Rightarrow> None)"

text \<open>\<open>clamp(n, min, max) = Math.max(min, Math.min(max, n))\<close>.\<close>

definition clamp :: "real \<Rightarrow> real \<Rightarrow> real \<Rightarrow> real" where
  "clamp n lo hi = max lo (min hi n)"

definition parseWeatherGroups :: "raw_groups \<Rightarrow> string list" where
  "parseWeatherGroups raw =
    (case raw of
       RawAbsent \<Rightarrow> []
     | RawString s \<Rightarrow>
         if s = [] then []
         else
           filter (\<lambda>a. a \<in> set WEATHER_GROUP_KEYS)
             (filter (\<lambda>s. s \<noteq> []) (map trim (split_on CHR '','' s)))
     | RawArray arr \<Rightarrow> filter (\<lambda>a. a \<in> set WEATHER_GROUP_KEYS) arr)"

section \<open>Weather cache and fetcher (lib/openMeteo.ts)\<close>

record WeatherResult =
  temperature :: "number option"
  weathercode :: "number option"
  humidity :: "number option"
  fetchedAt :: "string option"

subsection \<open>The cache key\<close>

text \<open>
  \<open>Number.prototype.toFixed(f)\<close>, after ECMAScript: the sign, then for a magnitude of
  \<open>10\<^sup>2\<^sup>1\<close> or more the platform's string form of the magnitude (the parameter
  \<open>toString\<close>), and otherwise the integer \<open>n\<close> nearest to \<open>\<bar>x\<bar> * 10\<^sup>f\<close> (the larger one
  on a tie) in decimal, padded with zeros to \<open>f + 1\<close> digits, with a point before the
  last \<open>f\<close> digits.
\<close>

definition digit_char :: "nat \<Rightarrow> char" where
  "digit_char d = ''0123456789'' ! d"

fun digits :: "nat \<Rightarrow> string" where
  "digits n = (if n < 10 then [digit_char n] else digits (n div 10) @ [digit_char (n mod 10)])"

declare digits.simps [simp del]

definition toFixed :: "(real \<Rightarrow> string) \<Rightarrow> real \<Rightarrow> nat \<Rightarrow> string" where
  "toFixed toString x f =
    (let s = (if x < 0 then ''-'' else []);
         x = \<bar>x\<bar>
     in if x \<ge> 10 ^ 21 then s @ toString x
        else
          (let n = nat \<lfloor>x * 10 ^ f + 1 / 2\<rfloor>;
               m = digits n;
               m = (if f \<noteq> 0 then
                      (let k = length m;
                           m = (if k \<le> f then replicate (f + 1 - k) CHR ''0'' @ m else m);
                           k = length m
                       in take (k - f) m @ ''.'' @ drop (k - f) m)
                    else m)
           in s @ m))"

definition CACHE_ROUND_DIGITS :: nat where
  "CACHE_ROUND_DIGITS = 4"

definition cacheKey :: "(real \<Rightarrow> string) \<Rightarrow> real \<Rightarrow> real \<Rightarrow> string" where
  "cacheKey toString lat lng =
    toFixed toString lat CACHE_ROUND_DIGITS @ '','' @ toFixed toString lng CACHE_ROUND_DIGITS"

subsection \<open>The upstream response and the platform\<close>

text \<open>A JSON value, as far as \<open>typeof v === "number"\<close> can tell.\<close>

datatype json = JNumber number | JOther

text \<open>
  The fields of the upstream response that \<open>fetchWeather\<close> reads:
  \<open>data?.current_weather\<close> (absent, or its \<open>temperature\<close> and \<open>weathercode\<close>),
  \<open>data?.hourly?.time ?? []\<close> and \<open>data?.hourly?.relativehumidity_2m ?? []\<close>.
\<close>

record api_data =
  current_weather :: "(json \<times> json) option"
  hourly_time :: "string list"
  hourly_relativehumidity_2m :: "json list"

text \<open>
  What the program takes from its platform: \<open>Number\<close>, \<open>Date.parse\<close>, \<open>Date.now()\<close>,
  \<open>new Date().toISOString()\<close>, the string form of a number (in a template literal
  and in \<open>toFixed\<close>),
  and the outcome of the HTTP call of \<open>fetchWeatherRaw\<close> for a coordinate: the
  response data, or the message of what was thrown (\<open>err?.message ?? err\<close>).
  The clock is fixed for the length of a request.
\<close>

record platform =
  Number_of :: "string \<Rightarrow> number"
  Date_parse :: "string \<Rightarrow> number"
  Date_now :: real
  now_toISOString :: string
  String_of :: "real \<Rightarrow> string"
  fetchWeatherRaw :: "real \<Rightarrow> real \<Rightarrow> string + api_data"

text \<open>
  The process-wide state: the cache (a map from keys to results; expiry is not
  modelled) and, as a ghost field, the coordinates of every upstream call made so far.
\<close>

record world =
  cache :: "string \<rightharpoonup> WeatherResult"
  upstream_calls :: "(real \<times> real) list"

subsection \<open>Nearest hourly humidity\<close>

text \<open>\<open>Math.abs(now - t)\<close> for a finite \<open>now\<close>.\<close>

fun abs_diff :: "real \<Rightarrow> number \<Rightarrow> number" where
  "abs_diff now (Finite t) = Finite \<bar>now - t\<bar>"
| "abs_diff now NaN = NaN"
| "abs_diff now PosInfinity = PosInfinity"
| "abs_diff now NegInfinity = PosInfinity"

text \<open>
  The time of one sample: \<open>Date.parse\<close> of the timestamp, and when that is \<open>NaN\<close>,
  of the timestamp with \<open>Z\<close> appended.
\<close>

definition parse_time :: "(string \<Rightarrow> number) \<Rightarrow> string \<Rightarrow> number" where
  "parse_time parse s = (let t = parse s in if isNaN t then parse (s @ ''Z'') else t)"

text \<open>
  The \<open>for\<close> loop over \<open>times\<close>, from index \<open>i\<close> on, with the loop variables
  \<open>bestIdx\<close> and \<open>bestDiff\<close>; it returns the final \<open>bestIdx\<close>.
\<close>

fun nearest_loop ::
  "(string \<Rightarrow> number) \<Rightarrow> real \<Rightarrow> string list \<Rightarrow> nat \<Rightarrow> nat \<Rightarrow> number \<Rightarrow> nat" where
  "nearest_loop parse now [] i bestIdx bestDiff = bestIdx"
| "nearest_loop parse now (s # rest) i bestIdx bestDiff =
    (let t = parse_time parse s
     in if isNaN t then nearest_loop parse now rest (i + 1) bestIdx bestDiff
        else
          (let diff = abs_diff now t
           in if num_lt diff bestDiff then nearest_loop parse now rest (i + 1) i diff
              else nearest_loop parse now rest (i + 1) bestIdx bestDiff))"

text \<open>
  The humidity block of \<open>fetchWeather\<close>: \<open>hums[bestIdx]\<close> when it is a number. An
  index out of range reads \<open>undefined\<close> in JavaScript, which is not a number.
\<close>

definition extractHumidity ::
  "(string \<Rightarrow> number) \<Rightarrow> real \<Rightarrow> string list \<Rightarrow> json list \<Rightarrow> number option" where
  "extractHumidity parse now times' hums =
    (if length times' \<noteq> 0 \<and> length hums \<noteq> 0 \<and> length times' = length hums then
       (let bestIdx = nearest_loop parse now times' 0 0 PosInfinity
        in if bestIdx < length hums then
             (case hums ! bestIdx of JNumber h \<Rightarrow> Some h | JOther \<Rightarrow> None)
           else None)
     else None)"

subsection \<open>fetchWeather and fetchWeatherForProperties\<close>

definition number_or_null :: "json \<Rightarrow> number option" where
  "number_or_null v = (case v of JNumber n \<Rightarrow> Some n | JOther \<Rightarrow> None)"

text \<open>
  \<open>fetchWeather(lat, lng)\<close>: the result, or the message of the \<open>Error\<close> it throws,
  and the state afterwards.
\<close>

definition fetchWeather ::
  "platform \<Rightarrow> world \<Rightarrow> real \<Rightarrow> real \<Rightarrow> (string + WeatherResult) \<times> world" where
  "fetchWeather P w lat lng =
    (let key = cacheKey (String_of P) lat lng in
     case cache w key of
       Some cached \<Rightarrow> (Inr cached, w)
     | None \<Rightarrow>
         (let w1 = w\<lparr>upstream_calls := upstream_calls w @ [(lat, lng)]\<rparr> in
          case fetchWeatherRaw P lat lng of
            Inl err \<Rightarrow>
              (Inl (''OpenMeteo fetch failed for '' @ String_of P lat @ '','' @
                    String_of P lng @ '': '' @ err), w1)
          | Inr data \<Rightarrow>
              (let result =
                 \<lparr>temperature =
                    (case current_weather data of
                       None \<Rightarrow> None | Some (t, c) \<Rightarrow> number_or_null t),
                  weathercode =
                    (case current_weather data of
                       None \<Rightarrow> None | Some (t, c) \<Rightarrow> number_or_null c),
                  humidity =
                    extractHumidity (Date_parse P) (Date_now P)
                      (hourly_time data) (hourly_relativehumidity_2m data),
                  fetchedAt = Some (now_toISOString P)\<rparr>
               in (Inr result, w1\<lparr>cache := (cache w1)(key \<mapsto> result)\<rparr>))))"

record coords =
  c_id :: int
  c_lat :: real
  c_lng :: real

record entry =
  e_id :: int
  e_lat :: real
  e_lng :: real
  e_weather :: "WeatherResult option"
  e_weatherError :: "string option"

text \<open>The body of the task that \<open>fetchWeatherForProperties\<close> runs for one input.\<close>

definition fetch_entry :: "platform \<Rightarrow> world \<Rightarrow> coords \<Rightarrow> entry \<times> world" where
  "fetch_entry P w p =
    (case fetchWeather P w (c_lat p) (c_lng p) of
       (Inr weather, w') \<Rightarrow>
         (\<lparr>e_id = c_id p, e_lat = c_lat p, e_lng = c_lng p,
           e_weather = Some weather, e_weatherError = None\<rparr>, w')
     | (Inl message, w') \<Rightarrow>
         (\<lparr>e_id = c_id p, e_lat = c_lat p, e_lng = c_lng p,
           e_weather = None, e_weatherError = Some message\<rparr>, w'))"

text \<open>
  \<open>fetchWeatherForProperties(props)\<close>. \<open>Promise.all\<close> returns the outcomes in input
  order; the tasks, which the limiter runs up to five at a time, are taken here one
  after the other in input order.
\<close>

fun fetchWeatherForProperties :: "platform \<Rightarrow> world \<Rightarrow> coords list \<Rightarrow> entry list \<times> world" where
  "fetchWeatherForProperties P w [] = ([], w)"
| "fetchWeatherForProperties P w (p # ps) =
    (let (e, w1) = fetch_entry P w p;
         (es, w2) = fetchWeatherForProperties P w1 ps
     in (e # es, w2))"

section \<open>The search handler (use-cases/getProperties.ts)\<close>

subsection \<open>The datastore\<close>

text \<open>A row of the property table, with the columns the handler reads.\<close>

record property =
  p_id :: int
  p_lat :: "real option"
  p_lng :: "real option"
  p_name :: string
  p_city :: string
  p_state :: string

text \<open>What the outer \<open>try\<close> of the handler can catch.\<close>

datatype failure = DatastoreError

text \<open>
  The datastore client, as the handler uses it: \<open>count({where})\<close> and
  \<open>findMany({where, skip, take})\<close>. The \<open>where\<close> clause is \<open>{}\<close> (\<open>None\<close>) or the
  three-column \<open>contains\<close> disjunction on a search text. Either call may throw.
\<close>

record datastore =
  ds_count :: "string option \<Rightarrow> failure + nat"
  ds_findMany :: "string option \<Rightarrow> real \<Rightarrow> real \<Rightarrow> failure + property list"

text \<open>
  Modelled from the spec: the datastore itself is an external collaborator that
  "supports a free-text OR-predicate over name/city/state, and skip/take pagination
  with a count operation". A finite datastore is a list of rows in scan order with a
  predicate for the \<open>where\<close> clause; it never throws.
\<close>

definition table_store :: "(string option \<Rightarrow> property \<Rightarrow> bool) \<Rightarrow> property list \<Rightarrow> datastore" where
  "table_store sat rows =
    \<lparr>ds_count = (\<lambda>wh. Inr (length (filter (sat wh) rows))),
     ds_findMany = (\<lambda>wh skip tk.
        Inr (take (nat \<lfloor>tk\<rfloor>) (drop (nat \<lfloor>skip\<rfloor>) (filter (sat wh) rows))))\<rparr>"

subsection \<open>Validation and normalisation of the query\<close>

record query =
  q_searchText :: qvalue
  q_tempMin :: qvalue
  q_tempMax :: qvalue
  q_humMin :: qvalue
  q_humMax :: qvalue
  q_take :: qvalue
  q_page :: qvalue
  q_weather :: raw_groups

text \<open>
  The local constants of the handler after normalisation: \<open>where\<close> (by its search
  text), the four bounds, \<open>take\<close>, \<open>page\<close> and \<open>weatherGroups\<close>.
\<close>

record criteria =
  n_where :: "string option"
  n_tempMin :: "real option"
  n_tempMax :: "real option"
  n_humMin :: "real option"
  n_humMax :: "real option"
  n_take :: int
  n_page :: real
  n_weatherGroups :: "string list"

definition normalize_query :: "platform \<Rightarrow> query \<Rightarrow> criteria" where
  "normalize_query P q =
    (let searchText = (case q_searchText q of QString s \<Rightarrow> Some (trim s) | _ \<Rightarrow> None);
         tempMinRaw = parseNumber (Number_of P) (q_tempMin q);
         tempMaxRaw = parseNumber (Number_of P) (q_tempMax q);
         humMinRaw = parseNumber (Number_of P) (q_humMin q);
         humMaxRaw = parseNumber (Number_of P) (q_humMax q);
         takeRaw = (case parseNumber (Number_of P) (q_take q) of None \<Rightarrow> 20 | Some n \<Rightarrow> n);
         pageRaw = (case parseNumber (Number_of P) (q_page q) of None \<Rightarrow> 1 | Some n \<Rightarrow> n)
     in \<lparr>n_where = (case searchText of
                       None \<Rightarrow> None
                     | Some s \<Rightarrow> if s \<noteq> [] then Some s else None),
         n_tempMin = map_option (\<lambda>n. clamp n (- 20) 50) tempMinRaw,
         n_tempMax = map_option (\<lambda>n. clamp n (- 20) 50) tempMaxRaw,
         n_humMin = map_option (\<lambda>n. clamp n 0 100) humMinRaw,
         n_humMax = map_option (\<lambda>n. clamp n 0 100) humMaxRaw,
         n_take = min (max 1 \<lfloor>takeRaw\<rfloor>) 200,
         n_page = max 1 pageRaw,
         n_weatherGroups = parseWeatherGroups (q_weather q)\<rparr>)"

definition hasWeatherFilters :: "criteria \<Rightarrow> bool" where
  "hasWeatherFilters c =
    (n_tempMin c \<noteq> None \<or> n_tempMax c \<noteq> None \<or> n_humMin c \<noteq> None \<or>
     n_humMax c \<noteq> None \<or> length (n_weatherGroups c) > 0)"

subsection \<open>The response\<close>

text \<open>
  A row of the filtered path: the base row found by id (\<open>idToProp.get(p.id)\<close>), the
  weather with its group label, and the fetch error.
\<close>

record datum =
  d_base :: "property option"
  d_weather :: "WeatherResult option"
  d_weatherGroup :: "string option"
  d_weatherError :: "string option"

datatype rows = Plain "property list" | Enriched "datum list"

record page_body =
  r_data :: rows
  r_page :: real
  r_take :: int
  r_total :: nat
  r_hasNextPage :: bool

datatype response = Json page_body | Status500

subsection \<open>The weather predicate and the mapping of a batch\<close>

text \<open>The callback of \<open>propsWithWeather.filter\<close>.\<close>

definition weather_passes :: "criteria \<Rightarrow> entry \<Rightarrow> bool" where
  "weather_passes c p =
    (case e_weather p of
       None \<Rightarrow> False
     | Some w \<Rightarrow>
         if (case n_tempMin c of
               None \<Rightarrow> False
             | Some tempMin \<Rightarrow>
                 (case temperature w of None \<Rightarrow> True | Some t \<Rightarrow> num_lt t (Finite tempMin)))
         then False
         else if (case n_tempMax c of
               None \<Rightarrow> False
             | Some tempMax \<Rightarrow>
                 (case temperature w of None \<Rightarrow> True | Some t \<Rightarrow> num_lt (Finite tempMax) t))
         then False
         else if (case n_humMin c of
               None \<Rightarrow> False
             | Some humMin \<Rightarrow>
                 (case humidity w of None \<Rightarrow> True | Some h \<Rightarrow> num_lt h (Finite humMin)))
         then False
         else if (case n_humMax c of
               None \<Rightarrow> False
             | Some humMax \<Rightarrow>
                 (case humidity w of None \<Rightarrow> True | Some h \<Rightarrow> num_lt (Finite humMax) h))
         then False
         else if length (n_weatherGroups c) > 0 then
           (case weathercode w of
              None \<Rightarrow> False
            | Some code \<Rightarrow> matchesWeatherGroup (Some code) (Some (n_weatherGroups c)))
         else True)"

text \<open>
  \<open>new Map(dbBatch.map((p) => [p.id, p]))\<close>: of two rows with one id the later one
  stays.
\<close>

definition idToProp :: "property list \<Rightarrow> int \<rightharpoonup> property" where
  "idToProp dbBatch = map_of (rev (map (\<lambda>p. (p_id p, p)) dbBatch))"

definition mapped_row :: "property list \<Rightarrow> entry \<Rightarrow> datum" where
  "mapped_row dbBatch p =
    \<lparr>d_base = idToProp dbBatch (e_id p),
     d_weather = e_weather p,
     d_weatherGroup =
       getWeatherGroupLabel (case e_weather p of None \<Rightarrow> None | Some w \<Rightarrow> weathercode w),
     d_weatherError = e_weatherError p\<rparr>"

text \<open>
  The rows with coordinates, and their fetch requests. \<open>toFetch\<close> is only applied to
  rows that have both coordinates, so its last case is never taken.
\<close>

definition withCoords_of :: "property list \<Rightarrow> property list" where
  "withCoords_of dbBatch = filter (\<lambda>p. p_lat p \<noteq> None \<and> p_lng p \<noteq> None) dbBatch"

definition toFetch :: "property list \<Rightarrow> coords list" where
  "toFetch withCoords =
    concat (map (\<lambda>p. case (p_lat p, p_lng p) of
                        (Some la, Some lo) \<Rightarrow> [\<lparr>c_id = p_id p, c_lat = la, c_lng = lo\<rparr>]
                      | _ \<Rightarrow> []) withCoords)"

subsection \<open>The batch-scan loop\<close>

definition BATCH_SIZE :: nat where
  "BATCH_SIZE = 200"

text \<open>
  The variables of the \<open>while\<close> loop, and as a ghost field the number of rows of
  every batch the datastore has returned to it, in order.
\<close>

record scan_state =
  filtered :: "datum list"
  totalChecked :: nat
  hasMore :: bool
  batches :: "nat list"

text \<open>
  The \<open>while\<close> loop. The datastore is any function, so the loop need not terminate:
  \<open>None\<close> is the run that never leaves the loop. A run that leaves it gives the
  variables (or what the datastore threw) and the state of cache and upstream calls.
\<close>

partial_function (option) scan ::
  "platform \<Rightarrow> datastore \<Rightarrow> criteria \<Rightarrow> world \<Rightarrow> scan_state \<Rightarrow>
     ((failure + scan_state) \<times> world) option" where
  "scan P ds c w st =
    (if hasMore st \<and> real (length (filtered st)) < n_page c * real_of_int (n_take c) then
       (case ds_findMany ds (n_where c) (real (totalChecked st)) (real BATCH_SIZE) of
          Inl err \<Rightarrow> Some (Inl err, w)
        | Inr dbBatch \<Rightarrow>
            (let st0 = st\<lparr>batches := batches st @ [length dbBatch]\<rparr> in
             if length dbBatch = 0 then Some (Inr (st0\<lparr>hasMore := False\<rparr>), w)
             else
               (let st1 = st0\<lparr>totalChecked := totalChecked st0 + length dbBatch\<rparr>;
                    withCoords = withCoords_of dbBatch
                in if length withCoords = 0 then scan P ds c w st1
                   else
                     (case fetchWeatherForProperties P w (toFetch withCoords) of
                        (propsWithWeather, w1) \<Rightarrow>
                          (let batchFiltered = filter (weather_passes c) propsWithWeather;
                               mapped = map (mapped_row dbBatch) batchFiltered;
                               st2 = st1\<lparr>filtered := filtered st1 @ mapped\<rparr>;
                               st3 = (if length dbBatch < BATCH_SIZE
                                      then st2\<lparr>hasMore := False\<rparr> else st2)
                           in scan P ds c w1 st3)))))
     else Some (Inr st, w))"

definition scan_init :: scan_state where
  "scan_init = \<lparr>filtered = [], totalChecked = 0, hasMore = True, batches = []\<rparr>"

subsection \<open>Pagination of the accumulator and the handler\<close>

text \<open>
  \<open>Array.prototype.slice(start, end)\<close>: both arguments are truncated towards zero, a
  negative one counts from the end, and both are clipped to the array.
\<close>

definition trunc :: "real \<Rightarrow> int" where
  "trunc x = (if x < 0 then \<lceil>x\<rceil> else \<lfloor>x\<rfloor>)"

definition slice :: "'a list \<Rightarrow> real \<Rightarrow> real \<Rightarrow> 'a list" where
  "slice xs start end' =
    (let len = int (length xs);
         relativeStart = trunc start;
         k = (if relativeStart < 0 then max (len + relativeStart) 0 else min relativeStart len);
         relativeEnd = trunc end';
         final = (if relativeEnd < 0 then max (len + relativeEnd) 0 else min relativeEnd len)
     in take (nat (final - k)) (drop (nat k) xs))"

text \<open>The block "paginate filtered results" at the end of the handler.\<close>

definition paginate :: "datum list \<Rightarrow> real \<Rightarrow> int \<Rightarrow> page_body" where
  "paginate acc page tk =
    (let total' = length acc;
         start = (page - 1) * real_of_int tk;
         end' = start + real_of_int tk;
         paginated = slice acc start end'
     in \<lparr>r_data = Enriched paginated, r_page = page, r_take = tk, r_total = total',
         r_hasNextPage = (end' < real total')\<rparr>)"

text \<open>
  \<open>getProperties(req, res)\<close>: the response sent and the state afterwards, or \<open>None\<close>
  when the scan loop never ends.
\<close>

definition getProperties ::
  "platform \<Rightarrow> datastore \<Rightarrow> world \<Rightarrow> query \<Rightarrow> (response \<times> world) option" where
  "getProperties P ds w q =
    (let c = normalize_query P q in
     if \<not> hasWeatherFilters c then
       (case ds_count ds (n_where c) of
          Inl err \<Rightarrow> Some (Status500, w)
        | Inr total' \<Rightarrow>
            (case ds_findMany ds (n_where c)
                    ((n_page c - 1) * real_of_int (n_take c)) (real_of_int (n_take c)) of
               Inl err \<Rightarrow> Some (Status500, w)
             | Inr properties \<Rightarrow>
                 Some (Json \<lparr>r_data = Plain properties, r_page = n_page c, r_take = n_take c,
                             r_total = total',
                             r_hasNextPage = (n_page c * real_of_int (n_take c) < real total')\<rparr>,
                       w)))
     else
       (case scan P ds c w scan_init of
          None \<Rightarrow> None
        | Some (Inl err, w1) \<Rightarrow> Some (Status500, w1)
        | Some (Inr st, w1) \<Rightarrow>
            Some (Json (paginate (filtered st) (n_page c) (n_take c)), w1)))"

section \<open>Auxiliary notions for the statements\<close>

text \<open>
  Reading a rendered number back, to state and prove when two keys are equal: the
  value of a digit and of a string of digits; the number \<open>n\<close> that \<open>toFixed\<close> renders;
  and the decimals of a non-negative number up to the fourth, truncated.
\<close>

definition digit_val :: "char \<Rightarrow> nat" where
  "digit_val c = of_char c - 48"

definition decimal_value :: "string \<Rightarrow> nat" where
  "decimal_value cs = foldl (\<lambda>a c. 10 * a + digit_val c) 0 cs"

definition decimals4 :: "real \<Rightarrow> int" where
  "decimals4 x = \<lfloor>x * 10 ^ 4\<rfloor>"

definition rounded :: "real \<Rightarrow> nat \<Rightarrow> nat" where
  "rounded x f = nat \<lfloor>\<bar>x\<bar> * 10 ^ f + 1 / 2\<rfloor>"

text \<open>
  A run of the scan loop that has left the loop without a datastore failure, with
  the loop condition false.
\<close>

definition stopped :: "criteria \<Rightarrow> ((failure + scan_state) \<times> world) option \<Rightarrow> bool" where
  "stopped c r \<longleftrightarrow>
    (\<exists>st' w'. r = Some (Inr st', w') \<and>
       (\<not> hasMore st' \<or> n_page c * real_of_int (n_take c) \<le> real (length (filtered st'))))"

section \<open>Sample data for closed instances\<close>

text \<open>
  A platform on which \<open>Number\<close> reads the strings \<open>75\<close> and \<open>2.5\<close>, no timestamp
  parses, and the upstream call times out for latitude 1 and answers 15 degrees with
  weather code 0 elsewhere.
\<close>

definition sample_platform :: platform where
  "sample_platform =
    \<lparr>Number_of = (\<lambda>s. if s = ''75'' then Finite 75
                      else if s = ''2.5'' then Finite (5 / 2) else NaN),
     Date_parse = (\<lambda>s. NaN),
     Date_now = 0,
     now_toISOString = ''2025-01-01T00:00:00.000Z'',
     String_of = (\<lambda>r. ''?''),
     fetchWeatherRaw = (\<lambda>lat lng.
        if lat = 1 then Inl ''timeout''
        else Inr \<lparr>current_weather = Some (JNumber (Finite 15), JNumber (Finite 0)),
                   hourly_time = [], hourly_relativehumidity_2m = []\<rparr>)\<rparr>"


text \<open>The query \<open>?tempMax=75\<close>: one weather filter, and the default page and take.\<close>

definition filter_query :: query where
  "filter_query =
    \<lparr>q_searchText = QUndefined, q_tempMin = QUndefined, q_tempMax = QString ''75'',
     q_humMin = QUndefined, q_humMax = QUndefined, q_take = QUndefined,
     q_page = QUndefined, q_weather = RawAbsent\<rparr>"


definition sample_property :: "int \<Rightarrow> real option \<Rightarrow> real option \<Rightarrow> property" where
  "sample_property i la lo =
    \<lparr>p_id = i, p_lat = la, p_lng = lo, p_name = ''house'', p_city = ''town'', p_state = ''XY''\<rparr>"



definition empty_world :: world where
  "empty_world = \<lparr>cache = Map.empty, upstream_calls = []\<rparr>"

text \<open>A datastore with one row, which has no coordinates; and one whose row has them.\<close>

definition no_coords_store :: datastore where
  "no_coords_store = table_store (\<lambda>wh p. True) [sample_property 1 None None]"

definition coords_store :: datastore where
  "coords_store = table_store (\<lambda>wh p. True) [sample_property 2 (Some 3) (Some 4)]"

section \<open>Properties of the taxonomy\<close>

lemma WEATHER_GROUP_KEYS_eq:
  "WEATHER_GROUP_KEYS = [''clear'', ''cloudy'', ''drizzle'', ''rainy'', ''snow'']"
  by (simp add: WEATHER_GROUP_KEYS_def WeatherGroups_def)

lemma group_has_known:
  "g \<in> set WEATHER_GROUP_KEYS \<Longrightarrow> map_of WeatherGroups g \<noteq> None"
  by (auto simp: WEATHER_GROUP_KEYS_eq WeatherGroups_def)

lemma group_has_unknown:
  "g \<notin> set WEATHER_GROUP_KEYS \<Longrightarrow> \<not> group_has g c"
  by (auto simp: WEATHER_GROUP_KEYS_eq WeatherGroups_def group_has_def)

lemma group_has_simps:
  "group_has ''clear'' c = has {0} c"
  "group_has ''cloudy'' c = has {1, 2, 3} c"
  "group_has ''drizzle'' c = has {51, 52, 53, 54, 55, 56, 57} c"
  "group_has ''rainy'' c = has {61, 62, 63, 64, 65, 66, 67, 80, 81, 82} c"
  "group_has ''snow'' c = has {71, 72, 73, 74, 75, 76, 77, 85, 86} c"
  by (simp_all add: group_has_def WeatherGroups_def)

text \<open>The five code sets are pairwise disjoint: a code is in at most one group.\<close>

lemma has_disjoint: "S \<inter> S' = {} \<Longrightarrow> has S c \<Longrightarrow> has S' c \<Longrightarrow> False"
  by (cases c) auto

lemma codes_disjoint:
  "{0 :: real} \<inter> {1, 2, 3} = {}"
  "{0 :: real} \<inter> {51, 52, 53, 54, 55, 56, 57} = {}"
  "{0 :: real} \<inter> {61, 62, 63, 64, 65, 66, 67, 80, 81, 82} = {}"
  "{0 :: real} \<inter> {71, 72, 73, 74, 75, 76, 77, 85, 86} = {}"
  "{1, 2, 3 :: real} \<inter> {51, 52, 53, 54, 55, 56, 57} = {}"
  "{1, 2, 3 :: real} \<inter> {61, 62, 63, 64, 65, 66, 67, 80, 81, 82} = {}"
  "{1, 2, 3 :: real} \<inter> {71, 72, 73, 74, 75, 76, 77, 85, 86} = {}"
  "{51, 52, 53, 54, 55, 56, 57 :: real} \<inter> {61, 62, 63, 64, 65, 66, 67, 80, 81, 82} = {}"
  "{51, 52, 53, 54, 55, 56, 57 :: real} \<inter> {71, 72, 73, 74, 75, 76, 77, 85, 86} = {}"
  "{61, 62, 63, 64, 65, 66, 67, 80, 81, 82 :: real} \<inter> {71, 72, 73, 74, 75, 76, 77, 85, 86} = {}"
  by simp_all

lemma group_has_unique:
  assumes a: "group_has g c" and b: "group_has g' c"
  shows "g = g'"
proof -
  from a have g: "g \<in> set WEATHER_GROUP_KEYS"
    using group_has_unknown by blast
  from b have g': "g' \<in> set WEATHER_GROUP_KEYS"
    using group_has_unknown by blast
  note d = codes_disjoint [THEN has_disjoint, of c]
  from g g' a b show ?thesis
    unfolding WEATHER_GROUP_KEYS_eq
    by (auto simp: group_has_simps dest: d)
qed

text \<open>The label is the group that has the code, when there is one.\<close>

lemma label_iff_group_has:
  "getWeatherGroupLabel (Some c) = Some g \<longleftrightarrow> group_has g c"
proof
  assume "getWeatherGroupLabel (Some c) = Some g"
  then show "group_has g c"
    by (auto simp: getWeatherGroupLabel_def find_Some_iff)
next
  assume h: "group_has g c"
  then have "g \<in> set WEATHER_GROUP_KEYS"
    using group_has_unknown by blast
  then obtain g' where "find (\<lambda>group. group_has group c) WEATHER_GROUP_KEYS = Some g'"
    using h by (cases "find (\<lambda>group. group_has group c) WEATHER_GROUP_KEYS")
      (auto simp: find_None_iff)
  moreover from this have "group_has g' c"
    by (auto simp: find_Some_iff)
  ultimately show "getWeatherGroupLabel (Some c) = Some g"
    using group_has_unique [OF h] by (simp add: getWeatherGroupLabel_def)
qed

lemma label_None_iff:
  "getWeatherGroupLabel (Some c) = None \<longleftrightarrow> (\<forall>g. \<not> group_has g c)"
proof -
  have "getWeatherGroupLabel (Some c) = None \<longleftrightarrow> (\<forall>g. getWeatherGroupLabel (Some c) \<noteq> Some g)"
    by auto
  then show ?thesis
    by (simp add: label_iff_group_has)
qed

lemma distinct_WeatherGroups: "distinct (map fst WeatherGroups)"
  by (simp add: WeatherGroups_def)

lemma group_has_iff:
  "group_has g c \<longleftrightarrow> (\<exists>S. (g, S) \<in> set WeatherGroups \<and> has S c)"
proof -
  have "(g, S) \<in> set WeatherGroups \<longleftrightarrow> map_of WeatherGroups g = Some S" for S
    using map_of_eq_Some_iff [OF distinct_WeatherGroups, of g S] by simp
  then show ?thesis
    by (cases "map_of WeatherGroups g") (simp_all add: group_has_def)
qed

text \<open>
  Claim C5. \<open>matchesWeatherGroup\<close> is true when the list of requested names is absent
  or empty; otherwise the names outside clear, cloudy, drizzle, rainy, snow are
  discarded, and the result is true when none remains, false when the code is not a
  number, and otherwise true exactly when the set of one of the remaining names has
  the code.
\<close>

theorem matchesWeatherGroup_cases:
  "matchesWeatherGroup code None
   \<and> matchesWeatherGroup code (Some [])
   \<and> (matchesWeatherGroup code (Some gs) \<longleftrightarrow>
        (let known = {''clear'', ''cloudy'', ''drizzle'', ''rainy'', ''snow''};
             surviving = filter (\<lambda>g. g \<in> known) gs
         in gs = [] \<or> surviving = [] \<or>
            (\<exists>c. code = Some c \<and>
               (\<exists>g \<in> set surviving. \<exists>S. (g, S) \<in> set WeatherGroups \<and> has S c))))"
proof -
  have keys: "set WEATHER_GROUP_KEYS = {''clear'', ''cloudy'', ''drizzle'', ''rainy'', ''snow''}"
    by (simp add: WEATHER_GROUP_KEYS_eq)
  have absent: "matchesWeatherGroup code None"
    by (simp add: matchesWeatherGroup_def)
  have empty: "matchesWeatherGroup code (Some [])"
    by (simp add: matchesWeatherGroup_def)
  have general: "matchesWeatherGroup code (Some gs) \<longleftrightarrow>
        (let known = {''clear'', ''cloudy'', ''drizzle'', ''rainy'', ''snow''};
             surviving = filter (\<lambda>g. g \<in> known) gs
         in gs = [] \<or> surviving = [] \<or>
            (\<exists>c. code = Some c \<and>
               (\<exists>g \<in> set surviving. \<exists>S. (g, S) \<in> set WeatherGroups \<and> has S c)))"
    unfolding matchesWeatherGroup_def keys Let_def
    by (cases code) (simp_all add: list_ex_iff group_has_iff del: set_filter)
  from absent empty general show ?thesis by blast
qed

theorem matchesWeatherGroup_cases_witness:
  "matchesWeatherGroup (Some (Finite 61)) (Some [''rainy'', ''monsoon''])
   \<and> matchesWeatherGroup (Some (Finite 61)) (Some [''monsoon''])
   \<and> \<not> matchesWeatherGroup (Some (Finite 61)) (Some [''clear'', ''snow''])
   \<and> \<not> matchesWeatherGroup None (Some [''clear''])"
  using matchesWeatherGroup_cases [of "Some (Finite 61)" "[''rainy'', ''monsoon'']"]
    matchesWeatherGroup_cases [of "Some (Finite 61)" "[''monsoon'']"]
    matchesWeatherGroup_cases [of "Some (Finite 61)" "[''clear'', ''snow'']"]
    matchesWeatherGroup_cases [of None "[''clear'']"]
  by (simp add: group_has_iff [symmetric] group_has_simps)

text \<open>
  Claim C6. Every code is in the set of at most one group; \<open>getWeatherGroupLabel\<close>
  returns a group exactly when that group's set has the code, returns none exactly
  when no group's set has it, and returns none when the input is not a number. The
  integer codes of the claim are the numbers \<open>Finite (of_int k)\<close>; the statement
  holds for every number.
\<close>

theorem getWeatherGroupLabel_classifies:
  "(getWeatherGroupLabel (Some c) = Some g \<longleftrightarrow>
      (\<exists>S. (g, S) \<in> set WeatherGroups \<and> has S c))
   \<and> (getWeatherGroupLabel (Some c) = None \<longleftrightarrow>
      \<not> (\<exists>g S. (g, S) \<in> set WeatherGroups \<and> has S c))
   \<and> (\<forall>g1 S1 g2 S2. (g1, S1) \<in> set WeatherGroups \<and> has S1 c \<and>
          (g2, S2) \<in> set WeatherGroups \<and> has S2 c \<longrightarrow> g1 = g2)
   \<and> getWeatherGroupLabel None = None"
proof -
  have one: "getWeatherGroupLabel (Some c) = Some g \<longleftrightarrow>
      (\<exists>S. (g, S) \<in> set WeatherGroups \<and> has S c)"
    by (simp add: label_iff_group_has group_has_iff)
  have none: "getWeatherGroupLabel (Some c) = None \<longleftrightarrow>
      \<not> (\<exists>g S. (g, S) \<in> set WeatherGroups \<and> has S c)"
    by (simp add: label_None_iff group_has_iff)
  have unique: "\<forall>g1 S1 g2 S2. (g1, S1) \<in> set WeatherGroups \<and> has S1 c \<and>
          (g2, S2) \<in> set WeatherGroups \<and> has S2 c \<longrightarrow> g1 = g2"
    using group_has_unique [of _ c] group_has_iff [of _ c] by blast
  have absent: "getWeatherGroupLabel None = None"
    by (simp add: getWeatherGroupLabel_def)
  from one none unique absent show ?thesis by blast
qed

theorem getWeatherGroupLabel_classifies_witness:
  "getWeatherGroupLabel (Some (Finite (of_int 80))) = Some ''rainy''
   \<and> getWeatherGroupLabel (Some (Finite (of_int 4))) = None
   \<and> getWeatherGroupLabel None = None"
proof -
  have a: "\<exists>S. (''rainy'', S) \<in> set WeatherGroups \<and> has S (Finite (of_int 80))"
    unfolding group_has_iff [symmetric] by (simp add: group_has_simps)
  have "\<not> group_has g (Finite (of_int 4))" for g
  proof (cases "g \<in> set WEATHER_GROUP_KEYS")
    case True
    then show ?thesis
      unfolding WEATHER_GROUP_KEYS_eq by (auto simp: group_has_simps)
  next
    case False
    then show ?thesis
      by (rule group_has_unknown)
  qed
  then have b: "\<not> (\<exists>g S. (g, S) \<in> set WeatherGroups \<and> has S (Finite (of_int 4)))"
    unfolding group_has_iff [symmetric] by simp
  note r = getWeatherGroupLabel_classifies [of "Finite (of_int 80)" "''rainy''"]
  note n = getWeatherGroupLabel_classifies [of "Finite (of_int 4)" "''clear''"]
  from a r [THEN conjunct1] have 1: "getWeatherGroupLabel (Some (Finite (of_int 80))) = Some ''rainy''"
    by (rule rev_iffD2)
  from b n [THEN conjunct2, THEN conjunct1]
  have 2: "getWeatherGroupLabel (Some (Finite (of_int 4))) = None"
    by (rule rev_iffD2)
  from n [THEN conjunct2, THEN conjunct2, THEN conjunct2] have 3: "getWeatherGroupLabel None = None" .
  from 1 2 3 show ?thesis by simp
qed

text \<open>
  Claim C10. For a numeric code and a non-empty list of valid group names,
  \<open>matchesWeatherGroup\<close> is true exactly when \<open>getWeatherGroupLabel\<close> gives a group
  of the list: the filter and the label agree.
\<close>

theorem matches_iff_label_in_groups:
  assumes "gs \<noteq> []" and "set gs \<subseteq> set WEATHER_GROUP_KEYS"
  shows "matchesWeatherGroup (Some c) (Some gs) \<longleftrightarrow>
           (\<exists>g. getWeatherGroupLabel (Some c) = Some g \<and> g \<in> set gs)"
proof -
  from assms(2) have valid: "filter (\<lambda>g. g \<in> set WEATHER_GROUP_KEYS) gs = gs"
    by (auto simp: filter_id_conv)
  with assms(1) have "matchesWeatherGroup (Some c) (Some gs) \<longleftrightarrow> (\<exists>g \<in> set gs. group_has g c)"
    by (simp add: matchesWeatherGroup_def list_ex_iff)
  then show ?thesis
    by (auto simp: label_iff_group_has)
qed

theorem matches_iff_label_in_groups_witness:
  "[''snow'', ''clear''] \<noteq> [] \<and> set [''snow'', ''clear''] \<subseteq> set WEATHER_GROUP_KEYS
   \<and> matchesWeatherGroup (Some (Finite 0)) (Some [''snow'', ''clear''])
   \<and> getWeatherGroupLabel (Some (Finite 0)) = Some ''clear''"
proof -
  have ne: "[''snow'', ''clear''] \<noteq> []"
    by simp
  have sub: "set [''snow'', ''clear''] \<subseteq> set WEATHER_GROUP_KEYS"
    by (simp add: WEATHER_GROUP_KEYS_eq)
  have lab: "getWeatherGroupLabel (Some (Finite 0)) = Some ''clear''"
    by (simp add: getWeatherGroupLabel_def WEATHER_GROUP_KEYS_eq group_has_simps)
  from matches_iff_label_in_groups [OF ne sub, of "Finite 0"] lab
  have "matchesWeatherGroup (Some (Finite 0)) (Some [''snow'', ''clear''])"
    by simp
  with ne sub lab show ?thesis by simp
qed

section \<open>Pagination of the accumulator\<close>

lemma slice_nonneg:
  assumes "0 \<le> start" and "0 \<le> n"
  shows "slice xs start (start + real_of_int n) = take (nat n) (drop (nat \<lfloor>start\<rfloor>) xs)"
proof -
  let ?k = "\<lfloor>start\<rfloor>"
  have k0: "0 \<le> ?k" using assms(1) by simp
  have e: "\<lfloor>start + real_of_int n\<rfloor> = ?k + n" by simp
  have s: "slice xs start (start + real_of_int n) =
        take (nat (min (?k + n) (int (length xs)) - min ?k (int (length xs))))
          (drop (nat (min ?k (int (length xs)))) xs)"
  proof -
    have "\<not> start < 0" "\<not> start + real_of_int n < 0" "\<not> ?k < 0" "\<not> ?k + n < 0"
      using assms k0 by linarith+
    then show ?thesis
      by (simp add: slice_def trunc_def Let_def e)
  qed
  show ?thesis
  proof (cases "?k \<le> int (length xs)")
    case True
    then have m: "min ?k (int (length xs)) = ?k" by simp
    have "nat (min (?k + n) (int (length xs)) - ?k) = min (nat n) (length xs - nat ?k)"
      using True k0 assms(2) by (simp add: min_def nat_diff_distrib nat_add_distrib) linarith
    moreover have "take (min (nat n) (length xs - nat ?k)) (drop (nat ?k) xs) =
        take (nat n) (drop (nat ?k) xs)"
      by (cases "nat n \<le> length xs - nat ?k") (simp_all add: min_def)
    ultimately show ?thesis
      unfolding s m by simp
  next
    case False
    then have "length xs \<le> nat ?k" by linarith
    moreover from False have "min ?k (int (length xs)) = int (length xs)" by simp
    moreover from False assms(2) have "min (?k + n) (int (length xs)) = int (length xs)" by simp
    ultimately show ?thesis
      unfolding s by simp
  qed
qed


text \<open>For a whole page number the slice starts at row \<open>(p - 1) * take\<close>.\<close>

lemma paginate_integer_page:
  assumes "1 \<le> p" and "1 \<le> tk"
  shows "r_data (paginate acc (real p) tk) = Enriched (take (nat tk) (drop ((p - 1) * nat tk) acc))"
proof -
  have eq: "(real p - 1) * real_of_int tk = real_of_int (int (p - 1) * tk)"
    using assms by (simp add: of_nat_diff)
  have "\<lfloor>(real p - 1) * real_of_int tk\<rfloor> = int (p - 1) * tk"
    by (simp only: eq floor_of_int)
  then have "nat \<lfloor>(real p - 1) * real_of_int tk\<rfloor> = (p - 1) * nat tk"
    by (simp add: nat_mult_distrib)
  moreover have "0 \<le> (real p - 1) * real_of_int tk" using assms by simp
  moreover have "0 \<le> tk" using assms by simp
  ultimately show ?thesis
    using slice_nonneg [of "(real p - 1) * real_of_int tk" tk acc]
    by (simp add: paginate_def Let_def)
qed


section \<open>Normalisation of the query\<close>




lemma sample_parse:
  "parseNumber (Number_of sample_platform) (QString ''75'') = Some 75"
  "parseNumber (Number_of sample_platform) (QString ''2.5'') = Some (5 / 2)"
  "parseNumber (Number_of sample_platform) QUndefined = None"
  by (simp_all add: parseNumber_def sample_platform_def trim_def isWhiteSpace_def)



lemma filter_normalized:
  "normalize_query sample_platform filter_query =
     \<lparr>n_where = None, n_tempMin = None, n_tempMax = Some 50, n_humMin = None,
      n_humMax = None, n_take = 20, n_page = 1, n_weatherGroups = []\<rparr>"
  by (simp add: normalize_query_def filter_query_def sample_parse parseWeatherGroups_def clamp_def)



section \<open>The fast path without weather filters\<close>




section \<open>The cache key\<close>

lemma digit_char_props:
  assumes "d < 10"
  shows "digit_char d \<in> set ''0123456789''" and "digit_val (digit_char d) = d"
proof -
  from assms have "d = 0 \<or> d = 1 \<or> d = 2 \<or> d = 3 \<or> d = 4 \<or> d = 5 \<or> d = 6 \<or> d = 7 \<or> d = 8 \<or> d = 9"
    by arith
  then show "digit_char d \<in> set ''0123456789''" and "digit_val (digit_char d) = d"
    by (auto simp: digit_char_def digit_val_def)
qed

lemma digits_chars: "set (digits n) \<subseteq> set ''0123456789''"
proof (induction n rule: digits.induct)
  case (1 n)
  show ?case
  proof (cases "n < 10")
    case True
    then show ?thesis
      using digit_char_props(1) [of n] by (subst digits.simps) simp
  next
    case False
    have "n mod 10 < 10" by simp
    then have "digit_char (n mod 10) \<in> set ''0123456789''"
      by (rule digit_char_props(1))
    with False 1 show ?thesis
      by (subst digits.simps) simp
  qed
qed

lemma decimal_value_snoc:
  "decimal_value (cs @ [c]) = 10 * decimal_value cs + digit_val c"
  by (simp add: decimal_value_def)

lemma decimal_value_digits: "decimal_value (digits n) = n"
proof (induction n rule: digits.induct)
  case (1 n)
  show ?case
  proof (cases "n < 10")
    case True
    then show ?thesis
      using digit_char_props(2) [of n]
      by (subst digits.simps) (simp add: decimal_value_def)
  next
    case False
    have "digit_val (digit_char (n mod 10)) = n mod 10"
      by (rule digit_char_props(2)) simp
    with False 1 show ?thesis
      by (subst digits.simps) (simp add: decimal_value_snoc)
  qed
qed

lemma decimal_value_zeros:
  "decimal_value (replicate k CHR ''0'' @ cs) = decimal_value cs"
proof -
  have "foldl (\<lambda>a c. 10 * a + digit_val c) 0 (replicate k CHR ''0'') = 0"
    by (induction k) (simp_all add: digit_val_def)
  then show ?thesis
    by (simp add: decimal_value_def)
qed


lemma digits_nonempty: "digits n \<noteq> []"
  by (subst digits.simps) simp

text \<open>The shape of a rendered number of small magnitude.\<close>

lemma toFixed_shape:
  assumes "\<bar>x\<bar> < 10 ^ 21"
  obtains m where
    "toFixed ts x 4 = (if x < 0 then ''-'' else []) @ take (length m - 4) m @ ''.'' @ drop (length m - 4) m"
    and "5 \<le> length m" and "set m \<subseteq> set ''0123456789''"
    and "decimal_value m = rounded x 4"
proof -
  let ?d = "digits (rounded x 4)"
  let ?m = "if length ?d \<le> 4 then replicate (4 + 1 - length ?d) CHR ''0'' @ ?d else ?d"
  have shape: "toFixed ts x 4 =
      (if x < 0 then ''-'' else []) @ take (length ?m - 4) ?m @ ''.'' @ drop (length ?m - 4) ?m"
    using assms by (simp add: toFixed_def Let_def rounded_def)
  have len: "5 \<le> length ?m"
    by simp
  have chars: "set ?m \<subseteq> set ''0123456789''"
    using digits_chars [of "rounded x 4"] by auto
  have val: "decimal_value ?m = rounded x 4"
    by (simp add: decimal_value_zeros decimal_value_digits)
  from shape len chars val show thesis
    by (rule that)
qed

lemma toFixed_eq_iff:
  assumes "\<bar>x\<bar> < 10 ^ 21" and "\<bar>y\<bar> < 10 ^ 21"
  shows "toFixed ts x 4 = toFixed ts y 4 \<longleftrightarrow>
           (x < 0 \<longleftrightarrow> y < 0) \<and> rounded x 4 = rounded y 4"
proof
  assume "(x < 0 \<longleftrightarrow> y < 0) \<and> rounded x 4 = rounded y 4"
  then show "toFixed ts x 4 = toFixed ts y 4"
    using assms by (simp add: toFixed_def Let_def rounded_def)
next
  assume eq: "toFixed ts x 4 = toFixed ts y 4"
  from assms(1) obtain m where
    x: "toFixed ts x 4 = (if x < 0 then ''-'' else []) @ take (length m - 4) m @ ''.'' @ drop (length m - 4) m"
    and lm: "5 \<le> length m" and cm: "set m \<subseteq> set ''0123456789''"
    and vm: "decimal_value m = rounded x 4"
    by (rule toFixed_shape)
  from assms(2) obtain m' where
    y: "toFixed ts y 4 = (if y < 0 then ''-'' else []) @ take (length m' - 4) m' @ ''.'' @ drop (length m' - 4) m'"
    and lm': "5 \<le> length m'" and cm': "set m' \<subseteq> set ''0123456789''"
    and vm': "decimal_value m' = rounded y 4"
    by (rule toFixed_shape)
  let ?a = "take (length m - 4) m" and ?b = "drop (length m - 4) m"
  let ?a' = "take (length m' - 4) m'" and ?b' = "drop (length m' - 4) m'"
  have a: "?a \<noteq> []" "set ?a \<subseteq> set ''0123456789''"
    using lm cm set_take_subset [of "length m - 4" m] by auto
  have a': "?a' \<noteq> []" "set ?a' \<subseteq> set ''0123456789''"
    using lm' cm' set_take_subset [of "length m' - 4" m'] by auto
  have hd_a: "hd (?a @ ''.'' @ ?b) \<in> set ''0123456789''"
    using a by (cases ?a) auto
  have hd_a': "hd (?a' @ ''.'' @ ?b') \<in> set ''0123456789''"
    using a' by (cases ?a') auto
  have sign: "x < 0 \<longleftrightarrow> y < 0"
  proof (rule ccontr)
    assume "\<not> (x < 0 \<longleftrightarrow> y < 0)"
    then consider "x < 0" "\<not> y < 0" | "\<not> x < 0" "y < 0" by blast
    then show False
    proof cases
      case 1
      with eq x y have "CHR ''-'' # (?a @ ''.'' @ ?b) = ?a' @ ''.'' @ ?b'" by simp
      then have "hd (?a' @ ''.'' @ ?b') = CHR ''-''" by (metis list.sel(1))
      with hd_a' show False by simp
    next
      case 2
      with eq x y have "?a @ ''.'' @ ?b = CHR ''-'' # (?a' @ ''.'' @ ?b')" by simp
      then have "hd (?a @ ''.'' @ ?b) = CHR ''-''" by (metis list.sel(1))
      with hd_a show False by simp
    qed
  qed
  with eq x y have "?a @ CHR ''.'' # ?b = ?a' @ CHR ''.'' # ?b'"
    by (simp split: if_splits)
  moreover have "CHR ''.'' \<notin> set ?a" "CHR ''.'' \<notin> set ?b"
    using a(2) cm set_drop_subset [of "length m - 4" m] by auto
  ultimately have "?a = ?a' \<and> ?b = ?b'"
    by (simp add: append_Cons_eq_iff)
  then have "?a @ ?b = ?a' @ ?b'" by simp
  then have "m = m'" by simp
  with vm vm' have "rounded x 4 = rounded y 4" by simp
  with sign show "(x < 0 \<longleftrightarrow> y < 0) \<and> rounded x 4 = rounded y 4" by simp
qed

lemma toFixed_no_comma:
  assumes "\<bar>x\<bar> < 10 ^ 21"
  shows "CHR '','' \<notin> set (toFixed ts x 4)"
proof -
  from assms obtain m where
    x: "toFixed ts x 4 = (if x < 0 then ''-'' else []) @ take (length m - 4) m @ ''.'' @ drop (length m - 4) m"
    and cm: "set m \<subseteq> set ''0123456789''"
    by (rule toFixed_shape)
  have "set (take (length m - 4) m) \<subseteq> set m" "set (drop (length m - 4) m) \<subseteq> set m"
    by (rule set_take_subset, rule set_drop_subset)
  with cm have "CHR '','' \<notin> set (take (length m - 4) m)" "CHR '','' \<notin> set (drop (length m - 4) m)"
    by auto
  then show ?thesis
    unfolding x by simp
qed

text \<open>
  Claim C4, as amended. For coordinates of magnitude below \<open>10\<^sup>2\<^sup>1\<close>, two pairs get the
  same key exactly when the two latitudes agree in being negative or not and in
  their magnitude rounded to the nearest multiple of \<open>10\<^sup>-\<^sup>4\<close> (a tie going up), and
  the two longitudes likewise.
\<close>

theorem cacheKey_eq_iff:
  assumes "\<bar>lat1\<bar> < 10 ^ 21" and "\<bar>lng1\<bar> < 10 ^ 21"
    and "\<bar>lat2\<bar> < 10 ^ 21" and "\<bar>lng2\<bar> < 10 ^ 21"
  shows "cacheKey ts lat1 lng1 = cacheKey ts lat2 lng2 \<longleftrightarrow>
           (lat1 < 0 \<longleftrightarrow> lat2 < 0) \<and> rounded lat1 4 = rounded lat2 4 \<and>
           (lng1 < 0 \<longleftrightarrow> lng2 < 0) \<and> rounded lng1 4 = rounded lng2 4"
proof -
  have "cacheKey ts lat1 lng1 = cacheKey ts lat2 lng2 \<longleftrightarrow>
      toFixed ts lat1 4 = toFixed ts lat2 4 \<and> toFixed ts lng1 4 = toFixed ts lng2 4"
    using toFixed_no_comma [OF assms(1), of ts] toFixed_no_comma [OF assms(2), of ts]
    by (simp add: cacheKey_def CACHE_ROUND_DIGITS_def append_Cons_eq_iff)
  then show ?thesis
    using toFixed_eq_iff [OF assms(1) assms(3), of ts] toFixed_eq_iff [OF assms(2) assms(4), of ts]
    by simp
qed


lemma digits_small: "n < 10 \<Longrightarrow> digits n = [digit_char n]"
  by (subst digits.simps) simp

lemma sample_keys:
  "cacheKey ts (1 / 16384) 0 = ''0.0001,0.0000''"
  "cacheKey ts (1 / 32768) 0 = ''0.0000,0.0000''"
  "cacheKey ts (1 / 8192) 0 = ''0.0001,0.0000''"
  by (simp_all add: cacheKey_def CACHE_ROUND_DIGITS_def toFixed_def Let_def digits_small
      digit_char_def eval_nat_numeral)

theorem cacheKey_eq_iff_witness:
  "\<bar>1 / 16384 :: real\<bar> < 10 ^ 21 \<and> \<bar>0 :: real\<bar> < 10 ^ 21 \<and> \<bar>1 / 8192 :: real\<bar> < 10 ^ 21
   \<and> rounded (1 / 16384) 4 = 1 \<and> rounded (1 / 8192) 4 = 1
   \<and> cacheKey (String_of sample_platform) (1 / 16384) 0 = cacheKey (String_of sample_platform) (1 / 8192) 0"
proof -
  have a: "\<bar>1 / 16384 :: real\<bar> < 10 ^ 21" and z: "\<bar>0 :: real\<bar> < 10 ^ 21"
    and b: "\<bar>1 / 8192 :: real\<bar> < 10 ^ 21"
    by simp_all
  have r: "rounded (1 / 16384) 4 = 1" "rounded (1 / 8192) 4 = 1"
    by (simp_all add: rounded_def)
  from cacheKey_eq_iff [OF a z b z, of "String_of sample_platform"] r
  have "cacheKey (String_of sample_platform) (1 / 16384) 0 = cacheKey (String_of sample_platform) (1 / 8192) 0"
    by simp
  with a z b r show ?thesis by simp
qed

text \<open>
  Claim C4 as stated fails in both halves, because the key rounds to the nearest and
  does not truncate. 1/16384 = 0.000061... and 1/32768 = 0.000030... differ only
  beyond the fourth decimal and get different keys; 1/16384 and 1/8192 = 0.000122...
  differ at the fourth decimal and get the same key.
\<close>

theorem cacheKey_rounds_to_nearest:
  "decimals4 (1 / 16384) = decimals4 (1 / 32768)
   \<and> cacheKey (String_of sample_platform) (1 / 16384) 0 \<noteq> cacheKey (String_of sample_platform) (1 / 32768) 0
   \<and> decimals4 (1 / 16384) \<noteq> decimals4 (1 / 8192)
   \<and> cacheKey (String_of sample_platform) (1 / 16384) 0 = cacheKey (String_of sample_platform) (1 / 8192) 0"
  by (simp add: sample_keys decimals4_def)

section \<open>The batch-scan loop\<close>

lemma scan_step_table:
  "ds_findMany (table_store sat rows) wh (real k) (real BATCH_SIZE) =
     Inr (take BATCH_SIZE (drop k (filter (sat wh) rows)))"
  by (simp add: table_store_def)

text \<open>
  Claim C1, at a failing input. The datastore holds one row, without coordinates,
  and the query sets a temperature bound. The first batch has 1 row, fewer than 200, and the
  accumulator is empty; the loop takes its \<open>continue\<close> and asks the datastore again,
  and stops only on the second, empty batch.
\<close>

theorem short_batch_without_coordinates_does_not_stop_scan:
  "scan sample_platform no_coords_store (normalize_query sample_platform filter_query)
     empty_world scan_init =
   Some (Inr \<lparr>filtered = [], totalChecked = 1, hasMore = False, batches = [1, 0]\<rparr>,
         empty_world)"
  apply (subst scan.simps)
  apply (simp add: scan_init_def no_coords_store_def table_store_def BATCH_SIZE_def
      filter_normalized sample_property_def withCoords_of_def)
  apply (subst scan.simps)
  apply (simp add: table_store_def BATCH_SIZE_def filter_normalized)
  done

text \<open>
  For contrast, when the one row has coordinates, the check at the end of the loop
  body is reached and the same short batch ends the scan after one datastore call,
  with the row accepted.
\<close>

lemma sample_fetch_one:
  "fst (fetchWeatherForProperties sample_platform empty_world
     [\<lparr>c_id = 2, c_lat = 3, c_lng = 4\<rparr>]) =
   [\<lparr>e_id = 2, e_lat = 3, e_lng = 4,
     e_weather = Some \<lparr>temperature = Some (Finite 15), weathercode = Some (Finite 0),
       humidity = None, fetchedAt = Some ''2025-01-01T00:00:00.000Z''\<rparr>,
     e_weatherError = None\<rparr>]"
  by (simp add: fetch_entry_def fetchWeather_def Let_def sample_platform_def empty_world_def
      number_or_null_def extractHumidity_def)

lemma short_batch_with_coordinates_stops_scan:
  "map_option fst (scan sample_platform coords_store
     (normalize_query sample_platform filter_query) empty_world scan_init) =
   Some (Inr \<lparr>filtered =
                 [\<lparr>d_base = Some (sample_property 2 (Some 3) (Some 4)),
                   d_weather = Some \<lparr>temperature = Some (Finite 15),
                     weathercode = Some (Finite 0), humidity = None,
                     fetchedAt = Some ''2025-01-01T00:00:00.000Z''\<rparr>,
                   d_weatherGroup = Some ''clear'', d_weatherError = None\<rparr>],
               totalChecked = 1, hasMore = False, batches = [1]\<rparr>)"
proof -
  let ?weather = "\<lparr>temperature = Some (Finite 15), weathercode = Some (Finite 0),
       humidity = None, fetchedAt = Some ''2025-01-01T00:00:00.000Z''\<rparr>"
  obtain es w1 where f: "fetchWeatherForProperties sample_platform empty_world
     [\<lparr>c_id = 2, c_lat = 3, c_lng = 4\<rparr>] = (es, w1)"
    by (cases "fetchWeatherForProperties sample_platform empty_world
     [\<lparr>c_id = 2, c_lat = 3, c_lng = 4\<rparr>]")
  with sample_fetch_one have es: "es = [\<lparr>e_id = 2, e_lat = 3, e_lng = 4,
     e_weather = Some ?weather, e_weatherError = None\<rparr>]"
    by simp
  have pass: "weather_passes (normalize_query sample_platform filter_query) (hd es)"
    unfolding es by (simp add: weather_passes_def filter_normalized)
  have label: "getWeatherGroupLabel (Some (Finite 0)) = Some ''clear''"
    by (simp add: getWeatherGroupLabel_def WEATHER_GROUP_KEYS_eq group_has_simps)
  have step: "scan sample_platform coords_store (normalize_query sample_platform filter_query)
      empty_world scan_init =
    scan sample_platform coords_store (normalize_query sample_platform filter_query) w1
      \<lparr>filtered =
         [\<lparr>d_base = Some (sample_property 2 (Some 3) (Some 4)), d_weather = Some ?weather,
           d_weatherGroup = Some ''clear'', d_weatherError = None\<rparr>],
       totalChecked = 1, hasMore = False, batches = [1]\<rparr>"
    apply (subst scan.simps)
    using pass
    apply (simp add: scan_init_def coords_store_def table_store_def BATCH_SIZE_def
      filter_normalized withCoords_of_def toFetch_def f es mapped_row_def idToProp_def label
      sample_property_def
      del: fetchWeatherForProperties.simps)
    done
  show ?thesis
    unfolding step
    by (subst scan.simps) simp
qed

text \<open>
  The loop does end on every finite datastore, with \<open>hasMore\<close> false or with at
  least \<open>page * take\<close> rows in the accumulator.
\<close>

lemma scan_terminates:
  "stopped c (scan P (table_store sat rows) c w st)"
proof (induction "length (filter (sat (n_where c)) rows) - totalChecked st"
    arbitrary: st w rule: less_induct)
  case less
  let ?M = "filter (sat (n_where c)) rows"
  define b where "b = take BATCH_SIZE (drop (totalChecked st) ?M)"
  have fm: "ds_findMany (table_store sat rows) (n_where c) (real (totalChecked st))
      (real BATCH_SIZE) = Inr b"
    unfolding b_def by (rule scan_step_table)
  show ?case
  proof (cases "hasMore st \<and> real (length (filtered st)) < n_page c * real_of_int (n_take c)")
    case False
    then show ?thesis
      by (subst scan.simps) (auto simp: stopped_def)
  next
    case True
    show ?thesis
    proof (cases "b = []")
      case True
      with \<open>hasMore st \<and> _\<close> show ?thesis
        by (subst scan.simps) (simp add: fm stopped_def)
    next
      case False
      then have "totalChecked st < length ?M"
        unfolding b_def by (cases "totalChecked st < length ?M") simp_all
      moreover from False have "0 < length b" by simp
      moreover have "length b \<le> length ?M - totalChecked st"
        unfolding b_def by simp
      ultimately have dec: "length ?M - (totalChecked st + length b) < length ?M - totalChecked st"
        by linarith
      have R: "stopped c (scan P (table_store sat rows) c w' st')"
        if "totalChecked st' = totalChecked st + length b" for st' w'
        using less [of st' w'] dec that by simp
      from True False show ?thesis
        by (subst scan.simps) (auto simp: fm Let_def intro!: R split: prod.splits)
    qed
  qed
qed

text \<open>So on a finite datastore the handler always sends a response.\<close>

lemma getProperties_returns:
  "\<exists>resp w'. getProperties P (table_store sat rows) w q = Some (resp, w')"
proof (cases "hasWeatherFilters (normalize_query P q)")
  case False
  then show ?thesis
    by (simp add: getProperties_def Let_def table_store_def)
next
  case True
  from scan_terminates [of "normalize_query P q" P sat rows w scan_init]
  obtain st' w' where
    "scan P (table_store sat rows) (normalize_query P q) w scan_init = Some (Inr st', w')"
    unfolding stopped_def by blast
  with True show ?thesis
    by (simp add: getProperties_def Let_def)
qed

section \<open>The bulk fetcher\<close>



















section \<open>Nearest hourly humidity\<close>

lemma num_lt_irrefl: "\<not> num_lt a a"
  by (cases a) simp_all

lemma num_lt_trans: "num_lt a b \<Longrightarrow> num_lt b c \<Longrightarrow> num_lt a c"
  by (cases a; cases b; cases c) simp_all

text \<open>
  The invariant of the loop. Either no sample from index \<open>i\<close> on was accepted, and
  then none of them parses to a time nearer than \<open>bestDiff\<close>; or the result is the
  index of a sample that parses, is nearer than \<open>bestDiff\<close>, and is at least as
  near as every other sample that parses.
\<close>

lemma nearest_loop_inv:
  "(nearest_loop parse now ts i bestIdx bestDiff = bestIdx \<and>
      (\<forall>j < length ts. \<not> isNaN (parse_time parse (ts ! j)) \<longrightarrow>
          \<not> num_lt (abs_diff now (parse_time parse (ts ! j))) bestDiff))
   \<or> (i \<le> nearest_loop parse now ts i bestIdx bestDiff \<and>
       nearest_loop parse now ts i bestIdx bestDiff < i + length ts \<and>
       \<not> isNaN (parse_time parse (ts ! (nearest_loop parse now ts i bestIdx bestDiff - i))) \<and>
       num_lt (abs_diff now (parse_time parse (ts ! (nearest_loop parse now ts i bestIdx bestDiff - i))))
          bestDiff \<and>
       (\<forall>j < length ts. \<not> isNaN (parse_time parse (ts ! j)) \<longrightarrow>
          \<not> num_lt (abs_diff now (parse_time parse (ts ! j)))
               (abs_diff now (parse_time parse (ts ! (nearest_loop parse now ts i bestIdx bestDiff - i))))))"
  (is "?A ts i bestIdx bestDiff \<or> ?B ts i bestIdx bestDiff")
proof (induction ts arbitrary: i bestIdx bestDiff)
  case Nil
  show ?case by simp
next
  case (Cons s rest)
  let ?t = "parse_time parse s"
  let ?d = "abs_diff now ?t"
  show ?case
  proof (cases "isNaN ?t")
    case True
    let ?r = "nearest_loop parse now rest (Suc i) bestIdx bestDiff"
    have r: "nearest_loop parse now (s # rest) i bestIdx bestDiff = ?r"
      using True by simp
    from Cons.IH [of "Suc i" bestIdx bestDiff] show ?thesis
    proof
      assume "?A rest (Suc i) bestIdx bestDiff"
      with True have "?A (s # rest) i bestIdx bestDiff"
        unfolding r by (simp add: All_less_Suc2)
      then show ?thesis ..
    next
      assume b: "?B rest (Suc i) bestIdx bestDiff"
      then have "(s # rest) ! (?r - i) = rest ! (?r - Suc i)"
        by (simp add: Suc_diff_le)
      with b True have "?B (s # rest) i bestIdx bestDiff"
        unfolding r by (simp add: All_less_Suc2)
      then show ?thesis ..
    qed
  next
    case False
    show ?thesis
    proof (cases "num_lt ?d bestDiff")
      case True
      let ?r = "nearest_loop parse now rest (Suc i) i ?d"
      have r: "nearest_loop parse now (s # rest) i bestIdx bestDiff = ?r"
        using True False by (simp add: Let_def)
      from Cons.IH [of "Suc i" i ?d] have "?B (s # rest) i bestIdx bestDiff"
      proof
        assume a: "?A rest (Suc i) i ?d"
        then have "?r = i" by simp
        with a True False show ?thesis
          unfolding r by (simp add: num_lt_irrefl All_less_Suc2)
      next
        assume b: "?B rest (Suc i) i ?d"
        then have nth: "(s # rest) ! (?r - i) = rest ! (?r - Suc i)"
          by (simp add: Suc_diff_le)
        let ?best = "abs_diff now (parse_time parse (rest ! (?r - Suc i)))"
        from b have lt: "num_lt ?best ?d" by simp
        from lt True have "num_lt ?best bestDiff"
          by (rule num_lt_trans)
        moreover have "\<not> num_lt ?d ?best"
          using lt num_lt_trans [of ?d ?best ?d] num_lt_irrefl [of ?d] by blast
        ultimately show ?thesis
          using b unfolding r nth by (simp add: All_less_Suc2)
      qed
      then show ?thesis ..
    next
      case nlt: False
      let ?r = "nearest_loop parse now rest (Suc i) bestIdx bestDiff"
      have r: "nearest_loop parse now (s # rest) i bestIdx bestDiff = ?r"
        using nlt False by (simp add: Let_def)
      from Cons.IH [of "Suc i" bestIdx bestDiff] show ?thesis
      proof
        assume "?A rest (Suc i) bestIdx bestDiff"
        with nlt have "?A (s # rest) i bestIdx bestDiff"
          unfolding r by (simp add: All_less_Suc2)
        then show ?thesis ..
      next
        assume b: "?B rest (Suc i) bestIdx bestDiff"
        then have nth: "(s # rest) ! (?r - i) = rest ! (?r - Suc i)"
          by (simp add: Suc_diff_le)
        let ?best = "abs_diff now (parse_time parse (rest ! (?r - Suc i)))"
        from b have lt: "num_lt ?best bestDiff" by simp
        have "\<not> num_lt ?d ?best"
          using lt nlt num_lt_trans [of ?d ?best bestDiff] by blast
        then have "?B (s # rest) i bestIdx bestDiff"
          using b unfolding r nth by (simp add: All_less_Suc2)
        then show ?thesis ..
      qed
    qed
  qed
qed


text \<open>
  When at least one timestamp parses to a time, the humidity returned is that of a
  sample that parses and is at least as near to now as every other sample that parses.
\<close>

lemma extractHumidity_nearest:
  assumes len: "length ts = length hums" and j: "j < length ts"
    and tj: "parse_time parse (ts ! j) = Finite tj"
  shows "\<exists>r tr. r < length ts \<and> parse_time parse (ts ! r) = Finite tr \<and>
           extractHumidity parse now ts hums = number_or_null (hums ! r) \<and>
           (\<forall>k u. k < length ts \<and> parse_time parse (ts ! k) = Finite u \<longrightarrow>
               \<bar>now - tr\<bar> \<le> \<bar>now - u\<bar>)"
proof -
  let ?r = "nearest_loop parse now ts 0 0 PosInfinity"
  from nearest_loop_inv [of parse now ts 0 0 PosInfinity]
  have b: "?r < length ts \<and> \<not> isNaN (parse_time parse (ts ! ?r)) \<and>
      num_lt (abs_diff now (parse_time parse (ts ! ?r))) PosInfinity \<and>
      (\<forall>k < length ts. \<not> isNaN (parse_time parse (ts ! k)) \<longrightarrow>
          \<not> num_lt (abs_diff now (parse_time parse (ts ! k)))
               (abs_diff now (parse_time parse (ts ! ?r))))"
  proof
    assume "nearest_loop parse now ts 0 0 PosInfinity = 0 \<and>
      (\<forall>j < length ts. \<not> isNaN (parse_time parse (ts ! j)) \<longrightarrow>
          \<not> num_lt (abs_diff now (parse_time parse (ts ! j))) PosInfinity)"
    with j tj show ?thesis by auto
  next
    assume "0 \<le> ?r \<and> ?r < 0 + length ts \<and>
       \<not> isNaN (parse_time parse (ts ! (?r - 0))) \<and>
       num_lt (abs_diff now (parse_time parse (ts ! (?r - 0)))) PosInfinity \<and>
       (\<forall>j < length ts. \<not> isNaN (parse_time parse (ts ! j)) \<longrightarrow>
          \<not> num_lt (abs_diff now (parse_time parse (ts ! j)))
               (abs_diff now (parse_time parse (ts ! (?r - 0)))))"
    then show ?thesis by simp
  qed
  then obtain tr where tr: "parse_time parse (ts ! ?r) = Finite tr"
    by (cases "parse_time parse (ts ! ?r)") simp_all
  have near: "\<bar>now - tr\<bar> \<le> \<bar>now - u\<bar>"
    if "k < length ts" and "parse_time parse (ts ! k) = Finite u" for k u
    using b that tr by (auto simp: not_less)
  from b len j have "extractHumidity parse now ts hums = number_or_null (hums ! ?r)"
    by (auto simp: extractHumidity_def number_or_null_def)
  with b tr near show ?thesis by blast
qed

text \<open>
  The example of the specification: samples ten minutes before, at, and twenty
  minutes after a time \<open>t\<close>, with humidities 40, 55 and 70; one minute after \<open>t\<close>
  the humidity is 55. Times are milliseconds, with \<open>t = 0\<close>.
\<close>

lemma nearest_humidity_example:
  "extractHumidity
     (\<lambda>s. if s = ''before'' then Finite (- 600000) else if s = ''at'' then Finite 0
          else if s = ''after'' then Finite 1200000 else NaN)
     60000 [''before'', ''at'', ''after'']
     [JNumber (Finite 40), JNumber (Finite 55), JNumber (Finite 70)] = Some (Finite 55)"
  by (simp add: extractHumidity_def parse_time_def)

text \<open>
  Claim C3, at a failing input. No timestamp of the series parses, directly or with
  \<open>Z\<close> appended, so every sample is skipped; \<open>bestIdx\<close> keeps its initial value 0 and
  the humidity of the first sample is returned, where the claim says none.
\<close>

theorem unparsable_series_yields_first_sample:
  "extractHumidity (Date_parse sample_platform) (Date_now sample_platform)
     [''not-a-date'', ''neither''] [JNumber (Finite 55), JNumber (Finite 70)] =
   Some (Finite 55)"
  by (simp add: extractHumidity_def parse_time_def sample_platform_def)

end
